theory Spec2Isabelle
  imports Main "HOL-Library.AList"
begin

section \<open>Python strings\<close>

text \<open>
  A Python string is a list of code points. What \<open>str.strip()\<close> removes and what
  \<open>str.upper()\<close> writes is decided by two tables of the Unicode database of the Python
  runtime, which are not part of the tokenizer: the code points that count as white space,
  and the full upper-case mapping, which sends a code point to one or more code points
  (the sharp s to \<open>SS\<close>). The two tables are parameters of the model, over any type of
  characters. \<open>str.upper()\<close> maps each code point by itself and joins the results.
\<close>

record 'c unicode_data =
  py_isspace :: "'c \<Rightarrow> bool"
  py_toupper :: "'c \<Rightarrow> 'c list"

definition py_lstrip :: "'c unicode_data \<Rightarrow> 'c list \<Rightarrow> 'c list" where
  "py_lstrip u s = dropWhile (py_isspace u) s"

definition py_rstrip :: "'c unicode_data \<Rightarrow> 'c list \<Rightarrow> 'c list" where
  "py_rstrip u s = rev (dropWhile (py_isspace u) (rev s))"

definition py_strip :: "'c unicode_data \<Rightarrow> 'c list \<Rightarrow> 'c list" where
  "py_strip u s = py_rstrip u (py_lstrip u s)"

definition py_upper :: "'c unicode_data \<Rightarrow> 'c list \<Rightarrow> 'c list" where
  "py_upper u s = concat (map (py_toupper u) s)"

text \<open>
  The names, kinds and tokens that the analyzer itself handles are strings of 8-bit
  characters, and the analyzer is run on ASCII text: there \<open>isspace\<close> holds of the ASCII
  white space (code points 9 to 13 and 28 to 32), and \<open>upper_char\<close> maps the letters a to z
  to A to Z and keeps every other character. \<open>ascii_tables\<close> are these two as tables.
\<close>

definition isspace :: "char \<Rightarrow> bool" where
  "isspace c = (let n = (of_char c :: nat) in (9 \<le> n \<and> n \<le> 13) \<or> (28 \<le> n \<and> n \<le> 32))"

definition lstrip :: "string \<Rightarrow> string" where
  "lstrip s = dropWhile isspace s"

definition rstrip :: "string \<Rightarrow> string" where
  "rstrip s = rev (dropWhile isspace (rev s))"

definition strip :: "string \<Rightarrow> string" where
  "strip s = rstrip (lstrip s)"

definition upper_char :: "char \<Rightarrow> char" where
  "upper_char c = (let n = (of_char c :: nat) in
     if 97 \<le> n \<and> n \<le> 122 then char_of (n - 32) else c)"

definition ascii_tables :: "char unicode_data" where
  "ascii_tables = \<lparr>py_isspace = isspace, py_toupper = (\<lambda>c. [upper_char c])\<rparr>"

text \<open>\<open>str.split()\<close> without arguments: the maximal runs of characters that are not white space.\<close>

fun split_ws_from :: "string \<Rightarrow> string \<Rightarrow> string list" where
  "split_ws_from cur [] = (if cur = [] then [] else [cur])"
| "split_ws_from cur (c # cs) =
     (if isspace c then (if cur = [] then split_ws_from [] cs else cur # split_ws_from [] cs)
      else split_ws_from (cur @ [c]) cs)"

definition split_ws :: "string \<Rightarrow> string list" where
  "split_ws s = split_ws_from [] s"

text \<open>\<open>re.split\<close> on a character class: every separator character ends a piece, and empty
  pieces are kept.\<close>

fun re_split_from :: "(char \<Rightarrow> bool) \<Rightarrow> string \<Rightarrow> string \<Rightarrow> string list" where
  "re_split_from sep cur [] = [cur]"
| "re_split_from sep cur (c # cs) =
     (if sep c then cur # re_split_from sep [] cs else re_split_from sep (cur @ [c]) cs)"

definition re_split :: "(char \<Rightarrow> bool) \<Rightarrow> string \<Rightarrow> string list" where
  "re_split sep s = re_split_from sep [] s"

text \<open>\<open>re.search\<close> for a character class: does some character of the string belong to it.\<close>

definition re_search :: "(char \<Rightarrow> bool) \<Rightarrow> string \<Rightarrow> bool" where
  "re_search cls s = list_ex cls s"

text \<open>\<open>sep.join(xs)\<close> and \<open>str\<close> of an integer.\<close>

fun str_join :: "string \<Rightarrow> string list \<Rightarrow> string" where
  "str_join sep [] = []"
| "str_join sep [x] = x"
| "str_join sep (x # y # ys) = x @ sep @ str_join sep (y # ys)"

fun str_nat :: "nat \<Rightarrow> string" where
  "str_nat n = (if n < 10 then [char_of (48 + n)] else str_nat (n div 10) @ [char_of (48 + n mod 10)])"

definition str_int :: "int \<Rightarrow> string" where
  "str_int i = (if i < 0 then CHR ''-'' # str_nat (nat (- i)) else str_nat (nat i))"

text \<open>\<open>str\<close> of a value that may be \<open>None\<close> (a \<open>word_id\<close> read from the table).\<close>

definition str_opt :: "int option \<Rightarrow> string" where
  "str_opt v = (case v of None \<Rightarrow> ''None'' | Some i \<Rightarrow> str_int i)"

section \<open>Python sets\<close>

text \<open>
  A Python set is modelled by the list of its distinct members, in the order in which they
  were first added. Python fixes no iteration order for a set, so the statements below speak
  about the members of such a list and about their number, never about their order.
  \<open>set_add\<close> is \<open>s.add(x)\<close>, \<open>set_update\<close> is \<open>s.update(ys)\<close>, \<open>py_set\<close> is \<open>set(xs)\<close> and
  \<open>set_difference\<close> is \<open>s - t\<close>.
\<close>

definition set_add :: "'a \<Rightarrow> 'a list \<Rightarrow> 'a list" where
  "set_add x xs = (if x \<in> set xs then xs else xs @ [x])"

definition set_update :: "'a list \<Rightarrow> 'a list \<Rightarrow> 'a list" where
  "set_update xs ys = fold set_add ys xs"

definition py_set :: "'a list \<Rightarrow> 'a list" where
  "py_set xs = fold set_add xs []"

definition set_difference :: "'a list \<Rightarrow> 'a list \<Rightarrow> 'a list" where
  "set_difference xs ys = filter (\<lambda>x. x \<notin> set ys) xs"

section \<open>Data model\<close>

text \<open>The exceptions that the modelled code can raise.\<close>

datatype error = KeyError | TypeError | IndexError

text \<open>A name or address item as the sanitizer hands it over: \<open>name\<close>, \<open>kind\<close>, \<open>suffix\<close> and
  the attribute dictionary, read with \<open>get_attr\<close>, which answers \<open>None\<close> for a missing key.\<close>

record place_name =
  name :: string
  kind :: string
  suffix :: "string option"
  attr :: "string \<rightharpoonup> string"

definition get_attr :: "place_name \<Rightarrow> string \<Rightarrow> string option" where
  "get_attr item key = attr item key"

text \<open>
  A row of the table \<open>word\<close>, with the columns the statements of the tokenizer name. The
  column \<open>type\<close> is called \<open>wtype\<close> here. \<open>word_id\<close> is NULL in the rows the tokenizer inserts
  itself. \<open>info\<close> is NULL or a JSON object whose values are strings; a JSON null value is
  modelled as a missing key, which \<open>info.get('op')\<close> and \<open>info->>'op' is null\<close> treat alike.
\<close>

record word_row =
  word_id :: "int option"
  word_token :: string
  wtype :: string
  word :: string
  info :: "(string \<times> string) list option"

text \<open>A special phrase: phrase text, class, type and operator.\<close>

type_synonym phrase = "string \<times> string \<times> string \<times> string"

text \<open>The statements the modelled functions send through the connection, in a trace that
  every \<open>execute\<close> and \<open>copy_out\<close> extends.\<close>

datatype statement =
    Getorcreate_full_word string "string list"
  | Getorcreate_partial_word "string list"
  | Getorcreate_hnr_id "string list"
  | Select_full_tokens string
  | Insert_postcode string string
  | Select_special_phrases
  | Copy_special_phrases "word_row list"
  | Delete_special_phrases "phrase list"
  | Select_country_tokens string
  | Insert_country_tokens string "string list"

text \<open>\<open>_TokenCache\<close>: four dictionaries and the set of postcodes.\<close>

record token_cache =
  names :: "string \<rightharpoonup> int \<times> int list"
  partials :: "string \<rightharpoonup> int"
  fulls :: "string \<rightharpoonup> int option list"
  postcodes :: "string list"
  housenumbers :: "string \<rightharpoonup> int"

definition new_token_cache :: token_cache where
  "new_token_cache = \<lparr>names = Map.empty, partials = Map.empty, fulls = Map.empty,
     postcodes = [], housenumbers = Map.empty\<rparr>"

text \<open>
  \<open>ICUTokenAnalysis\<close>. The three transliterators are functions on strings that the ICU
  library computes from the rules; an analyzer of the dictionary \<open>analysis\<close> is given by its
  method \<open>get_variants_ascii\<close>. Nothing is assumed about any of them.
\<close>

record token_analysis =
  normalizer :: "string \<Rightarrow> string"
  to_ascii :: "string \<Rightarrow> string"
  search :: "string \<Rightarrow> string"
  analysis :: "string option \<rightharpoonup> (string \<Rightarrow> string list)"

text \<open>
  The SQL functions the tokenizer calls are defined in the database, not in the tokenizer:
  they are parameters of the model, functions from the word table and their arguments to
  their result and the word table they leave.
\<close>

record sql_functions =
  getorcreate_full_word :: "word_row list \<Rightarrow> string \<Rightarrow> string list \<Rightarrow> (int \<times> int list) \<times> word_row list"
  getorcreate_partial_word :: "word_row list \<Rightarrow> string \<Rightarrow> int \<times> word_row list"
  getorcreate_hnr_id :: "word_row list \<Rightarrow> string \<Rightarrow> int \<times> word_row list"

text \<open>The state of a \<open>LegacyICUNameAnalyzer\<close>: the word table behind its connection, the
  trace of the statements sent, and its cache.\<close>

record analyzer =
  word_table :: "word_row list"
  executed :: "statement list"
  cache :: token_cache

text \<open>The dictionary \<open>_TokenInfo.data\<close>: its values are strings, or, for \<open>addr\<close>, a dictionary of
  strings in insertion order.\<close>

datatype json = Str string | Dict "(string \<times> string) list"

type_synonym token_info = "string \<rightharpoonup> json"


section \<open>ICUTokenAnalysis\<close>

text \<open>\<open>get_analyzer\<close>: \<open>self.analysis.get(name) or self.analysis[None]\<close>. An analyzer object is
  never falsy, so the right operand is evaluated exactly when the key is absent, and the
  subscript raises \<open>KeyError\<close> when the default entry is absent too.\<close>

definition get_analyzer :: "token_analysis \<Rightarrow> string option \<Rightarrow> error + (string \<Rightarrow> string list)" where
  "get_analyzer ta key =
     (case analysis ta key of
        Some a \<Rightarrow> Inr a
      | None \<Rightarrow> (case analysis ta None of Some d \<Rightarrow> Inr d | None \<Rightarrow> Inl KeyError))"

section \<open>LegacyICUNameAnalyzer\<close>

definition search_normalized :: "token_analysis \<Rightarrow> string \<Rightarrow> string" where
  "search_normalized ta nm = strip (search ta nm)"

definition normalized :: "token_analysis \<Rightarrow> string \<Rightarrow> string" where
  "normalized ta nm = strip (normalizer ta nm)"

text \<open>\<open>normalize_postcode\<close>: \<open>postcode.strip().upper()\<close>, for the Unicode tables \<open>u\<close> of the
  runtime.\<close>

definition normalize_postcode :: "'c unicode_data \<Rightarrow> 'c list \<Rightarrow> 'c list" where
  "normalize_postcode u postcode = py_upper u (py_strip u postcode)"

definition make_standard_hnr :: "token_analysis \<Rightarrow> string \<Rightarrow> string" where
  "make_standard_hnr ta hnr = search_normalized ta hnr"

subsection \<open>Special phrases\<close>

text \<open>The loop over the rows of \<open>SELECT word, info FROM word WHERE type = 'S'\<close>. A row whose
  \<open>info\<close> is NULL makes the subscript raise \<open>TypeError\<close>, a missing key \<open>KeyError\<close>.\<close>

definition op_or_placeholder :: "(string \<times> string) list \<Rightarrow> string" where
  "op_or_placeholder d =
     (case map_of d ''op'' of None \<Rightarrow> ''-'' | Some oper \<Rightarrow> if oper = [] then ''-'' else oper)"

fun existing_phrases_loop :: "word_row list \<Rightarrow> phrase list \<Rightarrow> error + phrase list" where
  "existing_phrases_loop [] existing_phrases = Inr existing_phrases"
| "existing_phrases_loop (row # rows) existing_phrases =
     (case info row of
        None \<Rightarrow> Inl TypeError
      | Some d \<Rightarrow>
          (case map_of d ''class'' of
             None \<Rightarrow> Inl KeyError
           | Some cls \<Rightarrow>
               (case map_of d ''type'' of
                  None \<Rightarrow> Inl KeyError
                | Some typ \<Rightarrow>
                    existing_phrases_loop rows
                      (set_add (word row, cls, typ, op_or_placeholder d) existing_phrases))))"

definition special_phrase_row :: "string \<Rightarrow> phrase \<Rightarrow> word_row" where
  "special_phrase_row term p =
     (case p of (wrd, cls, typ, oper) \<Rightarrow>
        \<lparr>word_id = None, word_token = term, wtype = ''S'', word = wrd,
         info = Some ([(''class'', cls), (''type'', typ)] @
                      (if oper \<in> {''in'', ''near''} then [(''op'', oper)] else []))\<rparr>)"

fun add_special_phrases_loop ::
  "token_analysis \<Rightarrow> phrase list \<Rightarrow> nat \<Rightarrow> word_row list \<Rightarrow> nat \<times> word_row list" where
  "add_special_phrases_loop ta [] added copystr = (added, copystr)"
| "add_special_phrases_loop ta ((wrd, cls, typ, oper) # to_add) added copystr =
     (let term = search_normalized ta wrd in
      if term \<noteq> [] then
        add_special_phrases_loop ta to_add (added + 1)
          (copystr @ [special_phrase_row term (wrd, cls, typ, oper)])
      else add_special_phrases_loop ta to_add added copystr)"

definition add_special_phrases ::
  "token_analysis \<Rightarrow> phrase list \<Rightarrow> phrase list \<Rightarrow> analyzer \<Rightarrow> nat \<times> analyzer" where
  "add_special_phrases ta new_phrases existing_phrases s =
     (let to_add = set_difference new_phrases existing_phrases;
          (added, copystr) = add_special_phrases_loop ta to_add 0 []
      in (added, s\<lparr>word_table := word_table s @ copystr,
                    executed := executed s @ [Copy_special_phrases copystr]\<rparr>))"

definition json_text :: "word_row \<Rightarrow> string \<Rightarrow> string option" where
  "json_text row key = (case info row of None \<Rightarrow> None | Some d \<Rightarrow> map_of d key)"

text \<open>The \<open>WHERE\<close> clause of the \<open>DELETE\<close> statement, for one row and one tuple of \<open>VALUES\<close>.\<close>

definition delete_matches :: "word_row \<Rightarrow> phrase \<Rightarrow> bool" where
  "delete_matches row v =
     (case v of (nm, in_class, in_type, oper) \<Rightarrow>
        wtype row = ''S'' \<and> word row = nm
        \<and> json_text row ''class'' = Some in_class \<and> json_text row ''type'' = Some in_type
        \<and> ((oper = ''-'' \<and> json_text row ''op'' = None) \<or> Some oper = json_text row ''op''))"

definition remove_special_phrases ::
  "phrase list \<Rightarrow> phrase list \<Rightarrow> analyzer \<Rightarrow> nat \<times> analyzer" where
  "remove_special_phrases new_phrases existing_phrases s =
     (let to_delete = set_difference existing_phrases new_phrases
      in (length to_delete,
          if to_delete \<noteq> [] then
            s\<lparr>word_table := filter (\<lambda>row. \<not> list_ex (delete_matches row) to_delete) (word_table s),
              executed := executed s @ [Delete_special_phrases to_delete]\<rparr>
          else s))"

text \<open>\<open>update_special_phrases\<close> returns nothing; the model returns the three numbers of its
  log line: total, added and deleted phrases.\<close>

definition update_special_phrases ::
  "token_analysis \<Rightarrow> phrase list \<Rightarrow> bool \<Rightarrow> analyzer \<Rightarrow> (error + nat \<times> nat \<times> nat) \<times> analyzer" where
  "update_special_phrases ta phrases should_replace s =
     (let norm_phrases = py_set (map (\<lambda>(p0, p1, p2, p3). (normalized ta p0, p1, p2, p3)) phrases);
          s0 = s\<lparr>executed := executed s @ [Select_special_phrases]\<rparr>
      in case existing_phrases_loop (filter (\<lambda>row. wtype row = ''S'') (word_table s0)) [] of
           Inl e \<Rightarrow> (Inl e, s0)
         | Inr existing_phrases \<Rightarrow>
             (let (added, s1) = add_special_phrases ta norm_phrases existing_phrases s0;
                  (deleted, s2) = (if should_replace
                                   then remove_special_phrases norm_phrases existing_phrases s1
                                   else (0, s1))
              in (Inr (length norm_phrases, added, deleted), s2)))"

subsection \<open>Country names\<close>

fun country_tokens_loop :: "token_analysis \<Rightarrow> place_name list \<Rightarrow> string list \<Rightarrow> string list" where
  "country_tokens_loop ta [] word_tokens = word_tokens"
| "country_tokens_loop ta (nm # rest) word_tokens =
     (let norm_name = search_normalized ta (name nm) in
      if norm_name \<noteq> [] then country_tokens_loop ta rest (set_add norm_name word_tokens)
      else country_tokens_loop ta rest word_tokens)"

definition country_row :: "string \<Rightarrow> string \<Rightarrow> word_row" where
  "country_row country_code token =
     \<lparr>word_id = None, word_token = token, wtype = ''C'', word = country_code, info = None\<rparr>"

text \<open>\<open>SELECT word_token FROM word WHERE type = 'C' and word = %s\<close>.\<close>

definition country_tokens :: "string \<Rightarrow> word_row list \<Rightarrow> string list" where
  "country_tokens country_code tbl =
     map word_token (filter (\<lambda>row. wtype row = ''C'' \<and> word row = country_code) tbl)"

definition add_country_full_names ::
  "token_analysis \<Rightarrow> string \<Rightarrow> place_name list \<Rightarrow> analyzer \<Rightarrow> analyzer" where
  "add_country_full_names ta country_code name_list s =
     (let word_tokens = country_tokens_loop ta name_list [];
          s0 = s\<lparr>executed := executed s @ [Select_country_tokens country_code]\<rparr>;
          word_tokens = set_difference word_tokens (country_tokens country_code (word_table s0))
      in if word_tokens \<noteq> [] then
           s0\<lparr>word_table := word_table s0 @ map (country_row country_code) word_tokens,
              executed := executed s0 @ [Insert_country_tokens country_code word_tokens]\<rparr>
         else s0)"

subsection \<open>Name tokens\<close>

definition name_token_id :: "string \<Rightarrow> string option \<Rightarrow> string" where
  "name_token_id norm_name analyzer_id =
     (case analyzer_id of None \<Rightarrow> norm_name | Some a \<Rightarrow> norm_name @ ''@'' @ a)"

fun compute_name_tokens_loop ::
  "token_analysis \<Rightarrow> sql_functions \<Rightarrow> place_name list \<Rightarrow> int list \<Rightarrow> int list \<Rightarrow> analyzer
     \<Rightarrow> (error + int list \<times> int list) \<times> analyzer" where
  "compute_name_tokens_loop ta sql [] full_tokens partial_tokens s =
     (Inr (full_tokens, partial_tokens), s)"
| "compute_name_tokens_loop ta sql (nm # rest) full_tokens partial_tokens s =
     (let analyzer_id = get_attr nm ''analyzer'';
          norm_name = normalized ta (name nm);
          token_id = name_token_id norm_name analyzer_id
      in case names (cache s) token_id of
           Some (full, part) \<Rightarrow>
             compute_name_tokens_loop ta sql rest
               (set_add full full_tokens) (set_update partial_tokens part) s
         | None \<Rightarrow>
             (case analysis ta analyzer_id of
                None \<Rightarrow> (Inl KeyError, s)
              | Some an \<Rightarrow>
                  (let variants = an norm_name in
                   if variants = [] then
                     compute_name_tokens_loop ta sql rest full_tokens partial_tokens s
                   else
                     (let ((full, part), tbl) =
                            getorcreate_full_word sql (word_table s) token_id variants;
                          s' = s\<lparr>word_table := tbl,
                                 executed := executed s @ [Getorcreate_full_word token_id variants],
                                 cache := (cache s)\<lparr>names := (names (cache s))(token_id \<mapsto> (full, part))\<rparr>\<rparr>
                      in compute_name_tokens_loop ta sql rest
                           (set_add full full_tokens) (set_update partial_tokens part) s'))))"

definition compute_name_tokens ::
  "token_analysis \<Rightarrow> sql_functions \<Rightarrow> place_name list \<Rightarrow> analyzer
     \<Rightarrow> (error + int list \<times> int list) \<times> analyzer" where
  "compute_name_tokens ta sql name_list s = compute_name_tokens_loop ta sql name_list [] [] s"

subsection \<open>Partial tokens and full-token lookup\<close>

text \<open>The first loop of \<open>_compute_partial_tokens\<close>: a cached token is used when it is truthy
  (present and not 0), every other word goes to \<open>need_lookup\<close>.\<close>

fun cached_partials_loop ::
  "(string \<rightharpoonup> int) \<Rightarrow> string list \<Rightarrow> int list \<Rightarrow> string list \<Rightarrow> int list \<times> string list" where
  "cached_partials_loop c [] tokens need_lookup = (tokens, need_lookup)"
| "cached_partials_loop c (partial # rest) tokens need_lookup =
     (case c partial of
        Some token \<Rightarrow>
          (if token \<noteq> 0 then cached_partials_loop c rest (tokens @ [token]) need_lookup
           else cached_partials_loop c rest tokens (need_lookup @ [partial]))
      | None \<Rightarrow> cached_partials_loop c rest tokens (need_lookup @ [partial]))"

text \<open>\<open>SELECT w, f(w) FROM unnest(%s) w\<close>: the SQL function is called once for each element,
  in order, each call seeing the table the call before it left.\<close>

fun select_unnest ::
  "(word_row list \<Rightarrow> string \<Rightarrow> int \<times> word_row list) \<Rightarrow> word_row list \<Rightarrow> string list
     \<Rightarrow> (string \<times> int) list \<times> word_row list" where
  "select_unnest f tbl [] = ([], tbl)"
| "select_unnest f tbl (w # ws) =
     (let (token, tbl1) = f tbl w;
          (rows, tbl2) = select_unnest f tbl1 ws
      in ((w, token) # rows, tbl2))"

fun store_partials_loop ::
  "(string \<times> int) list \<Rightarrow> int list \<Rightarrow> (string \<rightharpoonup> int) \<Rightarrow> int list \<times> (string \<rightharpoonup> int)" where
  "store_partials_loop [] tokens c = (tokens, c)"
| "store_partials_loop ((partial, token) # rows) tokens c =
     store_partials_loop rows (tokens @ [token]) (c(partial \<mapsto> token))"

definition compute_partial_tokens ::
  "token_analysis \<Rightarrow> sql_functions \<Rightarrow> string \<Rightarrow> analyzer \<Rightarrow> int list \<times> analyzer" where
  "compute_partial_tokens ta sql nm s =
     (let norm_name = search_normalized ta nm;
          (tokens, need_lookup) = cached_partials_loop (partials (cache s)) (split_ws norm_name) [] []
      in if need_lookup \<noteq> [] then
           (let (rows, tbl) = select_unnest (getorcreate_partial_word sql) (word_table s) need_lookup;
                (tokens, c) = store_partials_loop rows tokens (partials (cache s))
            in (tokens, s\<lparr>word_table := tbl,
                          executed := executed s @ [Getorcreate_partial_word need_lookup],
                          cache := (cache s)\<lparr>partials := c\<rparr>\<rparr>))
         else (tokens, s))"

definition retrieve_full_tokens ::
  "token_analysis \<Rightarrow> string \<Rightarrow> analyzer \<Rightarrow> int option list \<times> analyzer" where
  "retrieve_full_tokens ta nm s =
     (let norm_name = search_normalized ta nm in
      case fulls (cache s) norm_name of
        Some full \<Rightarrow> (full, s)
      | None \<Rightarrow>
          (let full = map word_id
                 (filter (\<lambda>row. word_token row = norm_name \<and> wtype row = ''W'') (word_table s))
           in (full, s\<lparr>executed := executed s @ [Select_full_tokens norm_name],
                       cache := (cache s)\<lparr>fulls := (fulls (cache s))(norm_name \<mapsto> full)\<rparr>\<rparr>)))"

subsection \<open>Postcodes\<close>

text \<open>The \<open>INSERT ... WHERE NOT EXISTS\<close> statement of \<open>_add_postcode\<close>.\<close>

definition insert_postcode :: "string \<Rightarrow> string \<Rightarrow> word_row list \<Rightarrow> word_row list" where
  "insert_postcode term pc tbl =
     (if list_ex (\<lambda>row. wtype row = ''P'' \<and> word row = pc) tbl then tbl
      else tbl @ [\<lparr>word_id = None, word_token = term, wtype = ''P'', word = pc, info = None\<rparr>])"

definition add_postcode :: "token_analysis \<Rightarrow> string \<Rightarrow> analyzer \<Rightarrow> analyzer" where
  "add_postcode ta postcode s =
     (if \<not> re_search (\<lambda>c. c \<in> {CHR '':'', CHR '','', CHR '';''}) postcode then
        (let postcode = normalize_postcode ascii_tables postcode in
         if postcode \<notin> set (postcodes (cache s)) then
           (let term = search_normalized ta postcode in
            if term = [] then s
            else s\<lparr>word_table := insert_postcode term postcode (word_table s),
                   executed := executed s @ [Insert_postcode term postcode],
                   cache := (cache s)\<lparr>postcodes := set_add postcode (postcodes (cache s))\<rparr>\<rparr>)
         else s)
      else s)"

subsection \<open>House numbers\<close>

text \<open>\<open>_split_housenumbers\<close>. \<open>hnrs[0]\<close> is evaluated only when the list does not have more
  than one element, and raises \<open>IndexError\<close> on the empty list.\<close>

definition split_condition :: "string list \<Rightarrow> error + bool" where
  "split_condition hnrs =
     (if length hnrs > 1 then Inr True
      else (case hnrs of
              [] \<Rightarrow> Inl IndexError
            | h # _ \<Rightarrow> Inr (CHR '','' \<in> set h \<or> CHR '';'' \<in> set h)))"

definition split_simple_list :: "string list \<Rightarrow> string list" where
  "split_simple_list hnrs =
     concat (map (\<lambda>hnr. map strip (re_split (\<lambda>c. c \<in> {CHR '';'', CHR '',''}) hnr)) hnrs)"

definition split_housenumbers :: "string list \<Rightarrow> error + string list" where
  "split_housenumbers hnrs =
     (case split_condition hnrs of
        Inl e \<Rightarrow> Inl e
      | Inr split \<Rightarrow>
          if split then
            (let simple_list = split_simple_list hnrs
             in Inr (if length simple_list > 1 then py_set simple_list else simple_list))
          else Inr hnrs)"

section \<open>TokenInfo and TokenCache\<close>

definition mk_array :: "('a \<Rightarrow> string) \<Rightarrow> 'a list \<Rightarrow> string" where
  "mk_array str tokens = ''{'' @ str_join '','' (map str tokens) @ ''}''"

definition add_names :: "int list \<Rightarrow> int list \<Rightarrow> token_info \<Rightarrow> token_info" where
  "add_names full_ids partial_ids data =
     data(''names'' \<mapsto> Str (mk_array str_int (full_ids @ partial_ids)))"

text \<open>The two loops of \<open>_TokenCache.get_hnr_tokens\<close>.\<close>

fun cached_hnr_loop ::
  "(string \<rightharpoonup> int) \<Rightarrow> string list \<Rightarrow> int list \<Rightarrow> string list \<Rightarrow> int list \<times> string list" where
  "cached_hnr_loop c [] tokens askdb = (tokens, askdb)"
| "cached_hnr_loop c (term # terms) tokens askdb =
     (case c term of
        None \<Rightarrow> cached_hnr_loop c terms tokens (askdb @ [term])
      | Some token \<Rightarrow> cached_hnr_loop c terms (tokens @ [token]) askdb)"

fun store_hnr_loop ::
  "(string \<times> int) list \<Rightarrow> int list \<Rightarrow> (string \<rightharpoonup> int) \<Rightarrow> int list \<times> (string \<rightharpoonup> int)" where
  "store_hnr_loop [] tokens c = (tokens, c)"
| "store_hnr_loop ((term, tid) # rows) tokens c =
     store_hnr_loop rows (tokens @ [tid]) (c(term \<mapsto> tid))"

definition get_hnr_tokens :: "sql_functions \<Rightarrow> string list \<Rightarrow> analyzer \<Rightarrow> int list \<times> analyzer" where
  "get_hnr_tokens sql terms s =
     (let (tokens, askdb) = cached_hnr_loop (housenumbers (cache s)) terms [] []
      in if askdb \<noteq> [] then
           (let (rows, tbl) = select_unnest (getorcreate_hnr_id sql) (word_table s) askdb;
                (tokens, c) = store_hnr_loop rows tokens (housenumbers (cache s))
            in (tokens, s\<lparr>word_table := tbl,
                          executed := executed s @ [Getorcreate_hnr_id askdb],
                          cache := (cache s)\<lparr>housenumbers := c\<rparr>\<rparr>))
         else (tokens, s))"

definition add_housenumbers ::
  "sql_functions \<Rightarrow> string list \<Rightarrow> token_info \<Rightarrow> analyzer \<Rightarrow> token_info \<times> analyzer" where
  "add_housenumbers sql hnrs data s =
     (let (tokens, s') = get_hnr_tokens sql hnrs s
      in (data(''hnr_tokens'' \<mapsto> Str (mk_array str_int tokens),
               ''hnr'' \<mapsto> Str (str_join '';'' hnrs)), s'))"

definition add_street :: "int option list \<Rightarrow> token_info \<Rightarrow> token_info" where
  "add_street tokens data = data(''street'' \<mapsto> Str (mk_array str_opt tokens))"

definition add_place :: "int list \<Rightarrow> token_info \<Rightarrow> token_info" where
  "add_place tokens data =
     (if tokens \<noteq> [] then data(''place'' \<mapsto> Str (mk_array str_int tokens)) else data)"

text \<open>The dictionary comprehension of \<open>add_address_terms\<close>: a later pair with the same key
  replaces the value of an earlier one.\<close>

fun address_terms_dict :: "(string \<times> int list) list \<Rightarrow> (string \<times> string) list \<Rightarrow> (string \<times> string) list" where
  "address_terms_dict [] tokens = tokens"
| "address_terms_dict ((key, partial_ids) # terms) tokens =
     (if partial_ids \<noteq> [] then
        address_terms_dict terms (AList.update key (mk_array str_int partial_ids) tokens)
      else address_terms_dict terms tokens)"

definition add_address_terms :: "(string \<times> int list) list \<Rightarrow> token_info \<Rightarrow> token_info" where
  "add_address_terms terms data =
     (let tokens = address_terms_dict terms []
      in if tokens \<noteq> [] then data(''addr'' \<mapsto> Dict tokens) else data)"

section \<open>Processing a place\<close>

definition truthy :: "string option \<Rightarrow> bool" where
  "truthy v = (case v of None \<Rightarrow> False | Some x \<Rightarrow> x \<noteq> [])"

definition startswith :: "string \<Rightarrow> char \<Rightarrow> bool" where
  "startswith x c = (case x of [] \<Rightarrow> False | d # _ \<Rightarrow> d = c)"

text \<open>The loop of \<open>_process_place_address\<close> over the address items, with the three lists it
  fills, the token information and the analyzer as its state.\<close>

fun address_loop ::
  "token_analysis \<Rightarrow> sql_functions \<Rightarrow> place_name list \<Rightarrow> string list \<Rightarrow> (string \<times> int list) list
     \<Rightarrow> int option list \<Rightarrow> token_info \<Rightarrow> analyzer
     \<Rightarrow> string list \<times> (string \<times> int list) list \<times> int option list \<times> token_info \<times> analyzer" where
  "address_loop ta sql [] hnrs addr_terms streets data s = (hnrs, addr_terms, streets, data, s)"
| "address_loop ta sql (item # rest) hnrs addr_terms streets data s =
     (if kind item = ''postcode'' then
        address_loop ta sql rest hnrs addr_terms streets data (add_postcode ta (name item) s)
      else if kind item \<in> {''housenumber'', ''streetnumber'', ''conscriptionnumber''} then
        address_loop ta sql rest (hnrs @ [name item]) addr_terms streets data s
      else if kind item = ''street'' then
        (let (full, s') = retrieve_full_tokens ta (name item) s
         in address_loop ta sql rest hnrs addr_terms (streets @ full) data s')
      else if kind item = ''place'' then
        (if \<not> truthy (suffix item) then
           (let (tokens, s') = compute_partial_tokens ta sql (name item) s
            in address_loop ta sql rest hnrs addr_terms streets (add_place tokens data) s')
         else address_loop ta sql rest hnrs addr_terms streets data s)
      else if \<not> startswith (kind item) CHR ''_'' \<and> \<not> truthy (suffix item)
              \<and> kind item \<notin> {''country'', ''full''} then
        (let (tokens, s') = compute_partial_tokens ta sql (name item) s
         in address_loop ta sql rest hnrs (addr_terms @ [(kind item, tokens)]) streets data s')
      else address_loop ta sql rest hnrs addr_terms streets data s)"

definition process_place_address ::
  "token_analysis \<Rightarrow> sql_functions \<Rightarrow> place_name list \<Rightarrow> token_info \<Rightarrow> analyzer
     \<Rightarrow> (error + token_info) \<times> analyzer" where
  "process_place_address ta sql address data s =
     (let (hnrs, addr_terms, streets, data1, s1) = address_loop ta sql address [] [] [] data s;
          after_hnrs =
            (if hnrs \<noteq> [] then
               (case split_housenumbers hnrs of
                  Inl e \<Rightarrow> (Inl e, s1)
                | Inr split_hnrs \<Rightarrow>
                    (let (d, s') = add_housenumbers sql (map (make_standard_hnr ta) split_hnrs) data1 s1
                     in (Inr d, s')))
             else (Inr data1, s1))
      in case after_hnrs of
           (Inl e, s2) \<Rightarrow> (Inl e, s2)
         | (Inr data2, s2) \<Rightarrow>
             (let data3 = (if addr_terms \<noteq> [] then add_address_terms addr_terms data2 else data2);
                  data4 = (if streets \<noteq> [] then add_street streets data3 else data3)
              in (Inr data4, s2)))"

text \<open>The sanitizer and \<open>PlaceInfo\<close> are not part of the tokenizer: a place is given by what
  \<open>sanitizer.process_names\<close> returns for it, together with \<open>is_country()\<close> and
  \<open>country_code\<close>.\<close>

record sanitized_place =
  place_names :: "place_name list"
  place_address :: "place_name list"
  is_country :: bool
  country_code :: string

definition process_place ::
  "token_analysis \<Rightarrow> sql_functions \<Rightarrow> sanitized_place \<Rightarrow> analyzer \<Rightarrow> (error + token_info) \<times> analyzer" where
  "process_place ta sql place s =
     (let after_names =
            (if place_names place \<noteq> [] then
               (case compute_name_tokens ta sql (place_names place) s of
                  (Inl e, s1) \<Rightarrow> (Inl e, s1)
                | (Inr (full_ids, partial_ids), s1) \<Rightarrow>
                    (Inr (add_names full_ids partial_ids Map.empty),
                     if is_country place
                     then add_country_full_names ta (country_code place) (place_names place) s1
                     else s1))
             else (Inr Map.empty, s))
      in case after_names of
           (Inl e, s2) \<Rightarrow> (Inl e, s2)
         | (Inr data, s2) \<Rightarrow>
             (if place_address place \<noteq> [] then
                process_place_address ta sql (place_address place) data s2
              else (Inr data, s2)))"


section \<open>A small analyzer set and store for concrete runs\<close>

text \<open>Transliterators that leave a name as it is, a default analyzer whose only variant is
  the name itself, and a second analyzer, keyed \<open>none\<close>, that has no variant for any name.\<close>

definition plain_analysis :: token_analysis where
  "plain_analysis =
     \<lparr>normalizer = (\<lambda>nm. nm), to_ascii = (\<lambda>nm. nm), search = (\<lambda>nm. nm),
      analysis = [None \<mapsto> (\<lambda>nm. [nm]), Some ''none'' \<mapsto> (\<lambda>nm. [])]\<rparr>"

text \<open>SQL functions that number a new token by the size of the table and append its row.\<close>

definition plain_sql :: sql_functions where
  "plain_sql =
     \<lparr>getorcreate_full_word = (\<lambda>tbl token_id variants.
        ((int (length tbl) + 1, [int (length tbl) + 2]),
         tbl @ [\<lparr>word_id = Some (int (length tbl) + 1), word_token = token_id, wtype = ''W'',
                  word = token_id, info = None\<rparr>,
                \<lparr>word_id = Some (int (length tbl) + 2), word_token = token_id, wtype = ''w'',
                  word = token_id, info = None\<rparr>])),
      getorcreate_partial_word = (\<lambda>tbl w.
        (int (length tbl) + 1,
         tbl @ [\<lparr>word_id = Some (int (length tbl) + 1), word_token = w, wtype = ''w'',
                  word = w, info = None\<rparr>])),
      getorcreate_hnr_id = (\<lambda>tbl nr.
        (int (length tbl) + 1,
         tbl @ [\<lparr>word_id = Some (int (length tbl) + 1), word_token = nr, wtype = ''H'',
                  word = nr, info = None\<rparr>]))\<rparr>"

text \<open>
  A part of the Unicode tables of Python, over code points as natural numbers: all the white
  space of \<open>str.isspace()\<close>, and the upper-case mapping of the code points below 256, among
  them the sharp s (223), which becomes \<open>SS\<close>, and the micro sign (181) and the y with
  diaeresis (255), whose capitals lie beyond 255. Code points from 256 on are kept.
\<close>

definition sample_tables :: "nat unicode_data" where
  "sample_tables =
     \<lparr>py_isspace = (\<lambda>c. (9 \<le> c \<and> c \<le> 13) \<or> (28 \<le> c \<and> c \<le> 32) \<or> c = 133 \<or> c = 160
          \<or> c = 5760 \<or> (8192 \<le> c \<and> c \<le> 8202) \<or> c = 8232 \<or> c = 8233 \<or> c = 8239
          \<or> c = 8287 \<or> c = 12288),
      py_toupper = (\<lambda>c.
          if 97 \<le> c \<and> c \<le> 122 then [c - 32]
          else if c = 181 then [924]
          else if c = 223 then [83, 83]
          else if 224 \<le> c \<and> c \<le> 254 \<and> c \<noteq> 247 then [c - 32]
          else if c = 255 then [376]
          else [c])\<rparr>"

definition new_analyzer :: analyzer where
  "new_analyzer = \<lparr>word_table = [], executed = [], cache = new_token_cache\<rparr>"

text \<open>A session whose word table holds one special phrase, stored with a null operator.\<close>

definition stored_phrase :: analyzer where
  "stored_phrase = new_analyzer\<lparr>word_table := [special_phrase_row ''a'' (''a'', ''A'', ''B'', ''-'')]\<rparr>"

definition plain_name :: "string \<Rightarrow> place_name" where
  "plain_name nm = \<lparr>name = nm, kind = ''name'', suffix = None, attr = Map.empty\<rparr>"

definition tagged_name :: "string \<Rightarrow> string \<Rightarrow> place_name" where
  "tagged_name nm analyzer_id =
     \<lparr>name = nm, kind = ''name'', suffix = None, attr = [''analyzer'' \<mapsto> analyzer_id]\<rparr>"

definition address_item :: "string \<Rightarrow> string \<Rightarrow> place_name" where
  "address_item k nm = \<lparr>name = nm, kind = k, suffix = None, attr = Map.empty\<rparr>"


section \<open>Notions used in the statements\<close>

text \<open>The dispatch key \<open>token_id\<close> that \<open>_compute_name_tokens\<close> forms for a name, and the
  condition under which a name that misses the cache is skipped: its analyzer exists and
  has no variant for the normalised name.\<close>

definition token_id_of :: "token_analysis \<Rightarrow> place_name \<Rightarrow> string" where
  "token_id_of ta nm = name_token_id (normalized ta (name nm)) (get_attr nm ''analyzer'')"

definition skipped :: "token_analysis \<Rightarrow> place_name \<Rightarrow> bool" where
  "skipped ta nm =
     (case analysis ta (get_attr nm ''analyzer'') of
        None \<Rightarrow> False
      | Some an \<Rightarrow> an (normalized ta (name nm)) = [])"


section \<open>Properties of \<open>strip\<close> and \<open>upper\<close>\<close>

lemma py_strip_between:
  assumes "list_all (py_isspace u) l" and "list_all (py_isspace u) r"
    and "m = [] \<or> (\<not> py_isspace u (hd m) \<and> \<not> py_isspace u (last m))"
  shows "py_strip u (l @ m @ r) = m"
proof (cases "m = []")
  case True
  from assms(1,2) have "\<forall>c \<in> set (l @ r). py_isspace u c"
    by (auto simp: list_all_iff)
  then have d: "dropWhile (py_isspace u) (l @ r) = []"
    by (simp only: dropWhile_eq_Nil_conv)
  show ?thesis
    unfolding True py_strip_def py_lstrip_def py_rstrip_def append_Nil d by simp
next
  case False
  with assms(3) have h: "\<not> py_isspace u (hd m)" and t: "\<not> py_isspace u (last m)" by auto
  have "dropWhile (py_isspace u) (l @ (m @ r)) = dropWhile (py_isspace u) (m @ r)"
    using assms(1) by (intro dropWhile_append2) (simp add: list_all_iff)
  also have "\<dots> = m @ r"
    using False h by (simp add: dropWhile_eq_self_iff)
  finally have left: "py_lstrip u (l @ m @ r) = m @ r" by (simp add: py_lstrip_def)
  have "dropWhile (py_isspace u) (rev r @ rev m) = dropWhile (py_isspace u) (rev m)"
    using assms(2) by (intro dropWhile_append2) (simp add: list_all_iff)
  also have "\<dots> = rev m"
    using False t by (simp add: dropWhile_eq_self_iff hd_rev)
  finally have "py_rstrip u (m @ r) = m" by (simp add: py_rstrip_def)
  with left show ?thesis by (simp add: py_strip_def)
qed

lemma py_strip_fixed:
  "s = [] \<or> (\<not> py_isspace u (hd s) \<and> \<not> py_isspace u (last s)) \<Longrightarrow> py_strip u s = s"
  using py_strip_between [of u "[]" "[]" s] by simp

text \<open>What \<open>strip\<close> returns has no white space at either end.\<close>

lemma py_strip_ends:
  "py_strip u x = [] \<or> (\<not> py_isspace u (hd (py_strip u x)) \<and> \<not> py_isspace u (last (py_strip u x)))"
proof (cases "py_strip u x = []")
  case True
  then show ?thesis by simp
next
  case False
  let ?y = "py_lstrip u x"
  let ?w = "dropWhile (py_isspace u) (rev ?y)"
  have z: "py_strip u x = rev ?w" by (simp add: py_strip_def py_rstrip_def)
  with False have w: "?w \<noteq> []" by simp
  then have "\<not> py_isspace u (hd ?w)" by (rule hd_dropWhile)
  with w z have l: "\<not> py_isspace u (last (py_strip u x))" by (simp add: last_rev)
  have "rev ?y = takeWhile (py_isspace u) (rev ?y) @ ?w" by simp
  then have "?y = rev ?w @ rev (takeWhile (py_isspace u) (rev ?y))"
    by (metis rev_append rev_rev_ident)
  with z have y: "?y = py_strip u x @ rev (takeWhile (py_isspace u) (rev ?y))" by simp
  with False have ne: "?y \<noteq> []" by auto
  from y False have "hd ?y = hd (py_strip u x)" by (metis hd_append2)
  moreover from ne have "\<not> py_isspace u (hd ?y)"
    unfolding py_lstrip_def by (rule hd_dropWhile)
  ultimately show ?thesis using l by simp
qed

lemma py_upper_append: "py_upper u (xs @ ys) = py_upper u xs @ py_upper u ys"
  by (simp add: py_upper_def)

lemma py_upper_idem:
  assumes "\<forall>c. py_upper u (py_toupper u c) = py_toupper u c"
  shows "py_upper u (py_upper u s) = py_upper u s"
proof (induction s)
  case Nil
  then show ?case by (simp add: py_upper_def)
next
  case (Cons c s)
  have "py_upper u (c # s) = py_toupper u c @ py_upper u s" by (simp add: py_upper_def)
  then show ?case using assms Cons by (simp add: py_upper_append)
qed

lemma py_upper_ends:
  assumes up: "\<forall>c. \<not> py_isspace u c \<longrightarrow>
            py_toupper u c \<noteq> [] \<and> \<not> py_isspace u (hd (py_toupper u c))
            \<and> \<not> py_isspace u (last (py_toupper u c))"
    and "s \<noteq> []" and "\<not> py_isspace u (hd s)" and "\<not> py_isspace u (last s)"
  shows "py_upper u s \<noteq> [] \<and> \<not> py_isspace u (hd (py_upper u s))
         \<and> \<not> py_isspace u (last (py_upper u s))"
proof -
  from assms(2) obtain a s1 where a: "s = a # s1" by (cases s) auto
  from assms(2) obtain s2 b where b: "s = s2 @ [b]" by (metis rev_exhaust)
  from a assms(3) up have ua: "py_toupper u a \<noteq> []" "\<not> py_isspace u (hd (py_toupper u a))" by auto
  from b assms(4) up have ub: "py_toupper u b \<noteq> []" "\<not> py_isspace u (last (py_toupper u b))" by auto
  have "py_upper u s = py_toupper u a @ py_upper u s1" by (simp add: a py_upper_def)
  with ua have "py_upper u s \<noteq> []" "hd (py_upper u s) = hd (py_toupper u a)" by auto
  moreover have "py_upper u s = py_upper u s2 @ py_toupper u b" by (simp add: b py_upper_def)
  with ub have "last (py_upper u s) = last (py_toupper u b)" by auto
  ultimately show ?thesis using ua ub by simp
qed

text \<open>On the tables of the analyzer's own strings the general functions are the ASCII ones.\<close>

lemma py_strip_ascii: "py_strip ascii_tables s = strip s"
  by (simp add: py_strip_def py_rstrip_def py_lstrip_def strip_def rstrip_def lstrip_def
      ascii_tables_def)

lemma normalize_postcode_ascii: "normalize_postcode ascii_tables s = map upper_char (strip s)"
  unfolding normalize_postcode_def py_strip_ascii
  by (induction "strip s") (simp_all add: py_upper_def ascii_tables_def)

section \<open>Properties of the set operations\<close>

lemma set_set_add [simp]: "set (set_add x xs) = insert x (set xs)"
  by (auto simp: set_add_def)

lemma distinct_set_add [simp]: "distinct (set_add x xs) = distinct xs"
  by (auto simp: set_add_def)

lemma set_fold_set_add: "set (fold set_add ys xs) = set xs \<union> set ys"
  by (induction ys arbitrary: xs) auto

lemma distinct_fold_set_add: "distinct (fold set_add ys xs) = distinct xs"
  by (induction ys arbitrary: xs) auto

lemma set_set_update [simp]: "set (set_update xs ys) = set xs \<union> set ys"
  by (simp add: set_update_def set_fold_set_add)

lemma set_py_set [simp]: "set (py_set xs) = set xs"
  by (simp add: py_set_def set_fold_set_add)

lemma distinct_py_set [simp]: "distinct (py_set xs)"
  by (simp add: py_set_def distinct_fold_set_add)

lemma set_set_difference [simp]: "set (set_difference xs ys) = set xs - set ys"
  by (auto simp: set_difference_def)

lemma distinct_set_difference: "distinct xs \<Longrightarrow> distinct (set_difference xs ys)"
  by (simp add: set_difference_def)


lemmas string_eval = strip_def lstrip_def rstrip_def isspace_def

lemmas fixture_defs = plain_analysis_def plain_sql_def new_analyzer_def new_token_cache_def
  plain_name_def tagged_name_def address_item_def

section \<open>Postcode normalisation\<close>

text \<open>The sample tables have the two properties that the statement below asks of the tables.\<close>

lemma sample_isspace:
  "py_isspace sample_tables c \<longleftrightarrow>
     (9 \<le> c \<and> c \<le> 13) \<or> (28 \<le> c \<and> c \<le> 32) \<or> c = 133 \<or> c = 160
          \<or> c = 5760 \<or> (8192 \<le> c \<and> c \<le> 8202) \<or> c = 8232 \<or> c = 8233 \<or> c = 8239
          \<or> c = 8287 \<or> c = 12288"
  by (simp add: sample_tables_def)

lemma sample_toupper:
  "py_toupper sample_tables c =
     (if 97 \<le> c \<and> c \<le> 122 then [c - 32]
          else if c = 181 then [924]
          else if c = 223 then [83, 83]
          else if 224 \<le> c \<and> c \<le> 254 \<and> c \<noteq> 247 then [c - 32]
          else if c = 255 then [376]
          else [c])"
  by (simp add: sample_tables_def)

lemma sample_toupper_cases:
  obtains (ascii) "97 \<le> c" "c \<le> 122" "py_toupper sample_tables c = [c - 32]"
  | (micro) "c = 181" "py_toupper sample_tables c = [924]"
  | (sharp) "c = 223" "py_toupper sample_tables c = [83, 83]"
  | (latin) "224 \<le> c" "c \<le> 254" "c \<noteq> 247" "py_toupper sample_tables c = [c - 32]"
  | (ydia) "c = 255" "py_toupper sample_tables c = [376]"
  | (same) "\<not> (97 \<le> c \<and> c \<le> 122)" "c \<noteq> 181" "c \<noteq> 223" "\<not> (224 \<le> c \<and> c \<le> 254 \<and> c \<noteq> 247)"
      "c \<noteq> 255" "py_toupper sample_tables c = [c]"
  unfolding sample_toupper by (cases "97 \<le> c \<and> c \<le> 122"; cases "c = 181"; cases "c = 223";
      cases "224 \<le> c \<and> c \<le> 254 \<and> c \<noteq> 247"; cases "c = 255") simp_all

lemma sample_tables_upper:
  "py_upper sample_tables (py_toupper sample_tables c) = py_toupper sample_tables c"
proof (cases c rule: sample_toupper_cases)
  case ascii
  then show ?thesis by (auto simp: py_upper_def sample_toupper)
next
  case micro
  then show ?thesis by (simp add: py_upper_def sample_toupper)
next
  case sharp
  then show ?thesis by (simp add: py_upper_def sample_toupper)
next
  case latin
  then show ?thesis by (auto simp: py_upper_def sample_toupper)
next
  case ydia
  then show ?thesis by (simp add: py_upper_def sample_toupper)
next
  case same
  then show ?thesis by (simp add: py_upper_def)
qed

lemma sample_tables_ends:
  assumes "\<not> py_isspace sample_tables c"
  shows "py_toupper sample_tables c \<noteq> [] \<and> \<not> py_isspace sample_tables (hd (py_toupper sample_tables c))
     \<and> \<not> py_isspace sample_tables (last (py_toupper sample_tables c))"
proof (cases c rule: sample_toupper_cases)
  case ascii
  then show ?thesis by (simp add: sample_isspace) arith
next
  case micro
  then show ?thesis by (simp add: sample_isspace)
next
  case sharp
  then show ?thesis by (simp add: sample_isspace)
next
  case latin
  then show ?thesis by (simp add: sample_isspace) arith
next
  case ydia
  then show ?thesis by (simp add: sample_isspace)
next
  case same
  then show ?thesis using assms by simp
qed

text \<open>
  C9. Let the Unicode tables of the runtime be such that the upper-case form of a code point
  is its own upper-case form, and that the upper-case form of a code point that is not white
  space is not empty and neither begins nor ends with white space. Then for every string
  \<open>x\<close>, \<open>normalize_postcode x\<close> is \<open>x.strip().upper()\<close>: for \<open>x\<close> made of white space \<open>l\<close>, a
  string \<open>m\<close> without white space at its ends and white space \<open>r\<close>, it is the upper-case
  forms of the code points of \<open>m\<close>, joined; and normalising a normalised postcode changes
  nothing.
\<close>

theorem normalize_postcode_idempotent:
  assumes "\<forall>c. py_upper u (py_toupper u c) = py_toupper u c"
    and "\<forall>c. \<not> py_isspace u c \<longrightarrow>
            py_toupper u c \<noteq> [] \<and> \<not> py_isspace u (hd (py_toupper u c))
            \<and> \<not> py_isspace u (last (py_toupper u c))"
  shows "normalize_postcode u x = py_upper u (py_strip u x)
       \<and> (list_all (py_isspace u) l \<and> list_all (py_isspace u) r
            \<and> (m = [] \<or> (\<not> py_isspace u (hd m) \<and> \<not> py_isspace u (last m)))
          \<longrightarrow> normalize_postcode u (l @ m @ r) = concat (map (py_toupper u) m))
       \<and> normalize_postcode u (normalize_postcode u x) = normalize_postcode u x"
proof (intro conjI impI)
  show "normalize_postcode u x = py_upper u (py_strip u x)"
    by (simp add: normalize_postcode_def)
next
  assume "list_all (py_isspace u) l \<and> list_all (py_isspace u) r
            \<and> (m = [] \<or> (\<not> py_isspace u (hd m) \<and> \<not> py_isspace u (last m)))"
  then have "py_strip u (l @ m @ r) = m" by (simp add: py_strip_between)
  then show "normalize_postcode u (l @ m @ r) = concat (map (py_toupper u) m)"
    by (simp add: normalize_postcode_def py_upper_def)
next
  let ?s = "py_strip u x"
  have "py_strip u (py_upper u ?s) = py_upper u ?s"
  proof (cases "?s = []")
    case True
    then show ?thesis by (simp add: py_upper_def py_strip_fixed)
  next
    case False
    with py_strip_ends [of u x]
    have "\<not> py_isspace u (hd ?s)" "\<not> py_isspace u (last ?s)" by auto
    from py_upper_ends [OF assms(2) False this] show ?thesis
      by (intro py_strip_fixed) simp
  qed
  then show "normalize_postcode u (normalize_postcode u x) = normalize_postcode u x"
    by (simp add: normalize_postcode_def py_upper_idem [OF assms(1)])
qed

theorem normalize_postcode_idempotent_witness:
  "normalize_postcode sample_tables [233, 49, 97] = [201, 49, 65]
   \<and> normalize_postcode sample_tables [160, 97, 98, 160] = [65, 66]
   \<and> normalize_postcode sample_tables [32, 223, 255, 181, 10] = [83, 83, 376, 924]
   \<and> normalize_postcode sample_tables (normalize_postcode sample_tables [32, 223, 255, 181, 10])
       = normalize_postcode sample_tables [32, 223, 255, 181, 10]"
proof -
  have a: "\<forall>c. py_upper sample_tables (py_toupper sample_tables c) = py_toupper sample_tables c"
    by (simp add: sample_tables_upper)
  have b: "\<forall>c. \<not> py_isspace sample_tables c \<longrightarrow>
            py_toupper sample_tables c \<noteq> [] \<and> \<not> py_isspace sample_tables (hd (py_toupper sample_tables c))
            \<and> \<not> py_isspace sample_tables (last (py_toupper sample_tables c))"
    using sample_tables_ends by blast
  note t = normalize_postcode_idempotent [OF a b]
  have n1: "normalize_postcode sample_tables ([] @ [233, 49, 97] @ [])
              = concat (map (py_toupper sample_tables) [233, 49, 97])"
  proof -
    have "list_all (py_isspace sample_tables) [] \<and> list_all (py_isspace sample_tables) []
        \<and> ([233, 49, 97] = [] \<or> (\<not> py_isspace sample_tables (hd [233, 49, 97])
             \<and> \<not> py_isspace sample_tables (last [233, 49, 97])))"
      by (simp add: sample_isspace)
    with t [where l = "[]" and r = "[]" and m = "[233, 49, 97]"] show ?thesis by blast
  qed
  have n2: "normalize_postcode sample_tables ([160] @ [97, 98] @ [160])
              = concat (map (py_toupper sample_tables) [97, 98])"
  proof -
    have "list_all (py_isspace sample_tables) [160] \<and> list_all (py_isspace sample_tables) [160]
        \<and> ([97, 98] = [] \<or> (\<not> py_isspace sample_tables (hd [97, 98])
             \<and> \<not> py_isspace sample_tables (last [97, 98])))"
      by (simp add: sample_isspace)
    with t [where l = "[160]" and r = "[160]" and m = "[97, 98]"] show ?thesis by blast
  qed
  have n3: "normalize_postcode sample_tables ([32] @ [223, 255, 181] @ [10])
              = concat (map (py_toupper sample_tables) [223, 255, 181])"
  proof -
    have "list_all (py_isspace sample_tables) [32] \<and> list_all (py_isspace sample_tables) [10]
        \<and> ([223, 255, 181] = [] \<or> (\<not> py_isspace sample_tables (hd [223, 255, 181])
             \<and> \<not> py_isspace sample_tables (last [223, 255, 181])))"
      by (simp add: sample_isspace)
    with t [where l = "[32]" and r = "[10]" and m = "[223, 255, 181]"] show ?thesis by blast
  qed
  have e1: "concat (map (py_toupper sample_tables) [233, 49, 97]) = [201, 49, 65]"
    and e2: "concat (map (py_toupper sample_tables) [97, 98]) = [65, 66]"
    and e3: "concat (map (py_toupper sample_tables) [223, 255, 181]) = [83, 83, 376, 924]"
    by (simp_all add: sample_toupper)
  from t [where x = "[32, 223, 255, 181, 10]"]
  have "normalize_postcode sample_tables (normalize_postcode sample_tables [32, 223, 255, 181, 10])
       = normalize_postcode sample_tables [32, 223, 255, 181, 10]" by blast
  with n1 n2 n3 e1 e2 e3 show ?thesis by simp
qed

section \<open>Ambiguous postcodes\<close>

text \<open>
  C1, as the code has it. A postcode that contains one of the characters \<open>:\<close>, \<open>,\<close> and
  \<open>;\<close> is not passed through \<open>normalize_postcode\<close>, and nothing else is done with it either:
  the whole body of \<open>_add_postcode\<close> stands under the test that no such character occurs, so
  the word table, the statements sent to the database and the cache all stay as they were.
\<close>

theorem add_postcode_ambiguous_skipped:
  assumes "re_search (\<lambda>c. c \<in> {CHR '':'', CHR '','', CHR '';''}) postcode"
  shows "add_postcode ta postcode s = s"
  using assms by (simp add: add_postcode_def)

theorem add_postcode_ambiguous_skipped_witness:
  "re_search (\<lambda>c. c \<in> {CHR '':'', CHR '','', CHR '';''}) ''AB;CD''
   \<and> add_postcode plain_analysis ''AB;CD'' new_analyzer = new_analyzer"
proof -
  have h: "re_search (\<lambda>c. c \<in> {CHR '':'', CHR '','', CHR '';''}) ''AB;CD''"
    by (simp add: re_search_def)
  show ?thesis using h add_postcode_ambiguous_skipped [OF h] by simp
qed

text \<open>
  The claim as stated fails: the postcode \<open>AB;CD\<close> has the non-empty search token \<open>AB;CD\<close>,
  and after processing it the word table is still empty and no statement was sent.
\<close>

theorem add_postcode_ambiguous_counterexample:
  "search_normalized plain_analysis ''AB;CD'' = ''AB;CD''
   \<and> word_table (add_postcode plain_analysis ''AB;CD'' new_analyzer) = []
   \<and> executed (add_postcode plain_analysis ''AB;CD'' new_analyzer) = []"
  by (simp add: add_postcode_def re_search_def search_normalized_def string_eval fixture_defs)

section \<open>Name tokens and the session cache\<close>

lemmas name_eval = compute_name_tokens_def get_attr_def normalized_def name_token_id_def
  set_add_def set_update_def Let_def

text \<open>
  C2 at a failing input. The name \<open>a\<close> carries the analyzer key \<open>xx\<close>, which the analyzer set
  does not map. \<open>get_analyzer\<close> answers such a key with the default analyzer, but
  \<open>_compute_name_tokens\<close> subscripts the dictionary itself and ends in \<open>KeyError\<close>.
\<close>

theorem compute_name_tokens_unmapped_analyzer:
  "get_analyzer plain_analysis (Some ''xx'') = get_analyzer plain_analysis None
   \<and> get_analyzer plain_analysis (Some ''xx'') \<noteq> Inl KeyError
   \<and> fst (compute_name_tokens plain_analysis plain_sql [tagged_name ''a'' ''xx''] new_analyzer)
       = Inl KeyError"
  by (simp add: get_analyzer_def fixture_defs name_eval string_eval)


lemma loop_skip:
  "names (cache s) (token_id_of ta nm) = None \<Longrightarrow> skipped ta nm \<Longrightarrow>
   compute_name_tokens_loop ta sql (nm # rest) F P s =
   compute_name_tokens_loop ta sql rest F P s"
  by (auto simp: token_id_of_def skipped_def split: option.splits)











section \<open>House numbers\<close>

lemma re_split_from_no_sep:
  "\<not> list_ex sep cur \<Longrightarrow> piece \<in> set (re_split_from sep cur s) \<Longrightarrow> \<not> list_ex sep piece"
proof (induction s arbitrary: cur)
  case Nil
  then show ?case by simp
next
  case (Cons c cs)
  show ?case
  proof (cases "sep c")
    case True
    with Cons.prems have "piece = cur \<or> piece \<in> set (re_split_from sep [] cs)" by simp
    then show ?thesis using Cons.prems(1) Cons.IH [of "[]"] by auto
  next
    case False
    with Cons.prems have "piece \<in> set (re_split_from sep (cur @ [c]) cs)" by simp
    moreover from False Cons.prems(1) have "\<not> list_ex sep (cur @ [c])" by simp
    ultimately show ?thesis using Cons.IH by blast
  qed
qed

lemma re_split_no_sep: "piece \<in> set (re_split sep s) \<Longrightarrow> \<not> list_ex sep piece"
  using re_split_from_no_sep [where cur = "[]" and sep = sep and s = s and piece = piece]
  by (simp add: re_split_def)

lemma list_ex_strip: "list_ex P (strip s) \<Longrightarrow> list_ex P s"
  unfolding strip_def rstrip_def lstrip_def list_ex_iff
  by (metis set_dropWhileD set_rev)

lemma split_simple_list_no_sep:
  "x \<in> set (split_simple_list hnrs) \<Longrightarrow> CHR '';'' \<notin> set x \<and> CHR '','' \<notin> set x"
proof -
  assume "x \<in> set (split_simple_list hnrs)"
  then obtain hnr piece where "piece \<in> set (re_split (\<lambda>c. c \<in> {CHR '';'', CHR '',''}) hnr)" "x = strip piece"
    by (auto simp: split_simple_list_def)
  then have "\<not> list_ex (\<lambda>c. c \<in> {CHR '';'', CHR '',''}) x"
    using re_split_no_sep list_ex_strip by blast
  then show ?thesis by (auto simp: list_ex_iff)
qed

text \<open>
  C5. The raw list \<open>["12,14", "16"]\<close> is split into the three distinct values 12, 14 and 16,
  and the list \<open>["12"]\<close> is returned as it is. For every non-empty list: when it has more than
  one value, or its single value contains \<open>,\<close> or \<open>;\<close>, the result holds exactly the stripped
  pieces between the separators (without duplicates when there is more than one piece, and no
  piece contains a separator); otherwise the list is returned unchanged.
\<close>

theorem split_housenumbers_splits:
  "(\<exists>xs. split_housenumbers [''12,14'', ''16''] = Inr xs
         \<and> set xs = {''12'', ''14'', ''16''} \<and> distinct xs)
   \<and> split_housenumbers [''12''] = Inr [''12'']
   \<and> (hnrs \<noteq> [] \<longrightarrow>
        (if length hnrs > 1 \<or> CHR '','' \<in> set (hd hnrs) \<or> CHR '';'' \<in> set (hd hnrs)
         then \<exists>xs. split_housenumbers hnrs = Inr xs
                \<and> set xs = set (split_simple_list hnrs)
                \<and> (length (split_simple_list hnrs) > 1 \<longrightarrow> distinct xs)
                \<and> (\<forall>x \<in> set xs. CHR '';'' \<notin> set x \<and> CHR '','' \<notin> set x)
         else split_housenumbers hnrs = Inr hnrs))"
proof (intro conjI impI)
  show "\<exists>xs. split_housenumbers [''12,14'', ''16''] = Inr xs
         \<and> set xs = {''12'', ''14'', ''16''} \<and> distinct xs"
    by (simp add: split_housenumbers_def split_condition_def split_simple_list_def re_split_def
        string_eval py_set_def set_add_def)
  show "split_housenumbers [''12''] = Inr [''12'']"
    by (simp add: split_housenumbers_def split_condition_def)
next
  assume ne: "hnrs \<noteq> []"
  then obtain h rest where hnrs: "hnrs = h # rest" by (cases hnrs) auto
  have cond: "split_condition hnrs
      = Inr (length hnrs > 1 \<or> CHR '','' \<in> set (hd hnrs) \<or> CHR '';'' \<in> set (hd hnrs))"
    by (auto simp: split_condition_def hnrs)
  show "if length hnrs > 1 \<or> CHR '','' \<in> set (hd hnrs) \<or> CHR '';'' \<in> set (hd hnrs)
         then \<exists>xs. split_housenumbers hnrs = Inr xs
                \<and> set xs = set (split_simple_list hnrs)
                \<and> (length (split_simple_list hnrs) > 1 \<longrightarrow> distinct xs)
                \<and> (\<forall>x \<in> set xs. CHR '';'' \<notin> set x \<and> CHR '','' \<notin> set x)
         else split_housenumbers hnrs = Inr hnrs"
    using split_simple_list_no_sep [of _ hnrs]
    by (auto simp: split_housenumbers_def cond Let_def)
qed

theorem split_housenumbers_splits_witness:
  "[''12; 14'', ''12''] \<noteq> []
   \<and> (\<exists>xs. split_housenumbers [''12; 14'', ''12''] = Inr xs \<and> set xs = {''12'', ''14''})"
proof -
  have "set (split_simple_list [''12; 14'', ''12'']) = {''12'', ''14''}"
    by (auto simp: split_simple_list_def re_split_def string_eval)
  with split_housenumbers_splits [of "[''12; 14'', ''12'']"] show ?thesis by auto
qed

section \<open>Country names\<close>

lemma set_country_tokens_loop:
  "set (country_tokens_loop ta ns acc)
     = set acc \<union> {t. t \<noteq> [] \<and> t \<in> (\<lambda>nm. search_normalized ta (name nm)) ` set ns}"
  by (induction ns arbitrary: acc) (auto simp: Let_def)

lemma distinct_country_tokens_loop:
  "distinct (country_tokens_loop ta ns acc) = distinct acc"
  by (induction ns arbitrary: acc) (auto simp: Let_def)

lemma country_tokens_append_rows:
  "country_tokens cc (tbl @ map (country_row cc) toks) = country_tokens cc tbl @ toks"
  by (induction toks rule: rev_induct) (auto simp: country_tokens_def country_row_def)

lemma add_country_table:
  "word_table (add_country_full_names ta cc ns s)
     = word_table s @ map (country_row cc)
         (set_difference (country_tokens_loop ta ns []) (country_tokens cc (word_table s)))"
  by (simp add: add_country_full_names_def Let_def country_tokens_def)

lemma add_country_executed:
  "executed (add_country_full_names ta cc ns s)
     = executed s @ [Select_country_tokens cc] @
       (let toks = set_difference (country_tokens_loop ta ns []) (country_tokens cc (word_table s))
        in if toks \<noteq> [] then [Insert_country_tokens cc toks] else [])"
  by (simp add: add_country_full_names_def Let_def country_tokens_def)

lemma set_difference_again:
  "set_difference xs (ys @ set_difference xs ys) = []"
  by (auto simp: set_difference_def filter_empty_conv)

text \<open>
  C6. Registering the names of a country a second time, with the same country code and the
  same names, leaves the word table as the first run left it and sends only the \<open>SELECT\<close>, no
  \<open>INSERT\<close>. A run only appends rows to the table: one country row for each distinct non-empty
  search token of the names that the country does not have yet. No row is removed.
\<close>

theorem add_country_full_names_monotonic:
  "word_table (add_country_full_names ta cc ns (add_country_full_names ta cc ns s))
     = word_table (add_country_full_names ta cc ns s)
   \<and> executed (add_country_full_names ta cc ns (add_country_full_names ta cc ns s))
     = executed (add_country_full_names ta cc ns s) @ [Select_country_tokens cc]
   \<and> (\<exists>toks. word_table (add_country_full_names ta cc ns s)
                = word_table s @ map (country_row cc) toks
            \<and> distinct toks
            \<and> set toks = {t. t \<noteq> [] \<and> t \<in> (\<lambda>nm. search_normalized ta (name nm)) ` set ns}
                          - set (country_tokens cc (word_table s)))"
proof -
  let ?toks = "set_difference (country_tokens_loop ta ns []) (country_tokens cc (word_table s))"
  let ?s1 = "add_country_full_names ta cc ns s"
  have again: "set_difference (country_tokens_loop ta ns []) (country_tokens cc (word_table ?s1)) = []"
    by (simp add: add_country_table country_tokens_append_rows set_difference_again)
  have "word_table (add_country_full_names ta cc ns ?s1) = word_table ?s1"
    by (subst add_country_table) (simp add: again)
  moreover have "executed (add_country_full_names ta cc ns ?s1)
      = executed ?s1 @ [Select_country_tokens cc]"
    by (subst add_country_executed) (simp add: again)
  moreover have "word_table ?s1 = word_table s @ map (country_row cc) ?toks"
    by (rule add_country_table)
  moreover have "distinct ?toks"
    by (simp add: distinct_set_difference distinct_country_tokens_loop)
  moreover have "set ?toks = {t. t \<noteq> [] \<and> t \<in> (\<lambda>nm. search_normalized ta (name nm)) ` set ns}
                          - set (country_tokens cc (word_table s))"
    by (simp add: set_country_tokens_loop)
  ultimately show ?thesis by blast
qed


theorem add_country_full_names_monotonic_witness:
  "word_table (add_country_full_names plain_analysis ''de''
      [plain_name ''Germany'', plain_name ''Deutschland'', plain_name ''Germany''] new_analyzer)
     = [country_row ''de'' ''Germany'', country_row ''de'' ''Deutschland'']
   \<and> word_table (add_country_full_names plain_analysis ''de''
        [plain_name ''Germany'', plain_name ''Deutschland'', plain_name ''Germany'']
        (add_country_full_names plain_analysis ''de''
           [plain_name ''Germany'', plain_name ''Deutschland'', plain_name ''Germany''] new_analyzer))
     = [country_row ''de'' ''Germany'', country_row ''de'' ''Deutschland'']"
proof -
  have "word_table (add_country_full_names plain_analysis ''de''
      [plain_name ''Germany'', plain_name ''Deutschland'', plain_name ''Germany''] new_analyzer)
     = [country_row ''de'' ''Germany'', country_row ''de'' ''Deutschland'']"
    by (simp add: add_country_table country_tokens_def set_difference_def set_add_def
        search_normalized_def string_eval fixture_defs)
  with add_country_full_names_monotonic [of plain_analysis "''de''"
      "[plain_name ''Germany'', plain_name ''Deutschland'', plain_name ''Germany'']" new_analyzer]
  show ?thesis by simp
qed

section \<open>Special phrases\<close>

lemma add_special_phrases_loop_rows:
  "\<exists>new. snd (add_special_phrases_loop ta to_add added copystr) = copystr @ new
         \<and> list_all (\<lambda>row. wtype row = ''S'') new"
proof (induction to_add arbitrary: added copystr)
  case Nil
  then show ?case by simp
next
  case (Cons p to_add)
  obtain wrd cls ty oper where p: "p = (wrd, cls, ty, oper)" by (cases p) auto
  show ?case
  proof (cases "search_normalized ta wrd = []")
    case True
    then show ?thesis using Cons.IH [of added copystr] by (simp add: p)
  next
    case False
    from Cons.IH [of "added + 1" "copystr @ [special_phrase_row (search_normalized ta wrd) (wrd, cls, ty, oper)]"]
    obtain new where
      "snd (add_special_phrases_loop ta to_add (added + 1)
              (copystr @ [special_phrase_row (search_normalized ta wrd) (wrd, cls, ty, oper)]))
         = (copystr @ [special_phrase_row (search_normalized ta wrd) (wrd, cls, ty, oper)]) @ new"
      "list_all (\<lambda>row. wtype row = ''S'') new" by blast
    then show ?thesis using False
      by (simp add: p Let_def special_phrase_row_def)
  qed
qed

lemma add_special_phrases_loop_count:
  "fst (add_special_phrases_loop ta to_add added copystr)
     = added + length (filter (\<lambda>p. search_normalized ta (fst p) \<noteq> []) to_add)"
  by (induction to_add arbitrary: added copystr) (auto simp: Let_def)

lemma add_special_phrases_table:
  "\<exists>new. word_table (snd (add_special_phrases ta new_phrases existing_phrases s)) = word_table s @ new
       \<and> list_all (\<lambda>row. wtype row = ''S'') new
       \<and> executed (snd (add_special_phrases ta new_phrases existing_phrases s))
           = executed s @ [Copy_special_phrases new]"
  using add_special_phrases_loop_rows [of ta "set_difference new_phrases existing_phrases" 0 "[]"]
  by (auto simp: add_special_phrases_def Let_def split: prod.splits)

lemma add_special_phrases_count:
  "fst (add_special_phrases ta new_phrases existing_phrases s)
     = length (filter (\<lambda>p. search_normalized ta (fst p) \<noteq> [])
         (set_difference new_phrases existing_phrases))"
  using add_special_phrases_loop_count [of ta "set_difference new_phrases existing_phrases" 0 "[]"]
  by (auto simp: add_special_phrases_def Let_def split: prod.splits)

text \<open>
  C7. With the replace flag false, special-phrase synchronization deletes no row: the word
  table afterwards is the table before followed by the added rows, all of them special-phrase
  rows, no \<open>DELETE\<close> is sent, and the deleted count of a run that returns is 0.
\<close>

theorem update_special_phrases_additive:
  "(\<exists>new. word_table (snd (update_special_phrases ta phrases False s)) = word_table s @ new
         \<and> list_all (\<lambda>row. wtype row = ''S'') new
         \<and> (executed (snd (update_special_phrases ta phrases False s))
               = executed s @ [Select_special_phrases]
            \<or> executed (snd (update_special_phrases ta phrases False s))
               = executed s @ [Select_special_phrases, Copy_special_phrases new]))
   \<and> ((\<exists>e. fst (update_special_phrases ta phrases False s) = Inl e)
      \<or> (\<exists>total_count added. fst (update_special_phrases ta phrases False s) = Inr (total_count, added, 0)))"
proof (cases "existing_phrases_loop (filter (\<lambda>row. wtype row = ''S'') (word_table s)) []")
  case (Inl e)
  then have "update_special_phrases ta phrases False s
      = (Inl e, s\<lparr>executed := executed s @ [Select_special_phrases]\<rparr>)"
    by (simp add: update_special_phrases_def Let_def)
  then show ?thesis by simp
next
  case (Inr existing)
  let ?norm = "py_set (map (\<lambda>(p0, p1, p2, p3). (normalized ta p0, p1, p2, p3)) phrases)"
  let ?s0 = "s\<lparr>executed := executed s @ [Select_special_phrases]\<rparr>"
  let ?a = "add_special_phrases ta ?norm existing ?s0"
  from Inr have u: "update_special_phrases ta phrases False s
      = (Inr (length ?norm, fst ?a, 0), snd ?a)"
    by (simp add: update_special_phrases_def Let_def split: prod.splits)
  from add_special_phrases_table [of ta ?norm existing ?s0]
  obtain new where "word_table (snd ?a) = word_table s @ new"
    "list_all (\<lambda>row. wtype row = ''S'') new"
    "executed (snd ?a) = executed s @ [Select_special_phrases, Copy_special_phrases new]"
    by auto
  then show ?thesis unfolding u by auto
qed

lemma distinct_existing_phrases_loop:
  "existing_phrases_loop rows acc = Inr existing \<Longrightarrow> distinct acc \<Longrightarrow> distinct existing"
  by (induction rows arbitrary: acc) (auto split: option.splits)

text \<open>The tuple that the loop over the stored rows reads from one row.\<close>

lemma set_existing_phrases_loop:
  "existing_phrases_loop rows acc = Inr existing \<Longrightarrow>
   set existing = set acc \<union>
     {(word row, cls, typ, op_or_placeholder d) | row cls typ d.
        row \<in> set rows \<and> info row = Some d \<and> map_of d ''class'' = Some cls
        \<and> map_of d ''type'' = Some typ}"
proof (induction rows arbitrary: acc)
  case Nil
  then show ?case by simp
next
  case (Cons row rows)
  from Cons.prems obtain d cls ty where r: "info row = Some d" "map_of d ''class'' = Some cls"
    "map_of d ''type'' = Some ty"
    and run: "existing_phrases_loop rows (set_add (word row, cls, ty, op_or_placeholder d) acc) = Inr existing"
    by (auto split: option.splits)
  from Cons.IH [OF run] r show ?case by auto
qed

text \<open>
  The three numbers of a run that returns, from the tuples the code compares: the input
  tuples with the phrase text normalised and the operator as it was given, and the tuples
  read from the stored rows, where a null or empty operator is read as \<open>-\<close>.
\<close>

lemma update_special_phrases_counts:
  assumes "update_special_phrases ta phrases should_replace s = (Inr (total_count, added, deleted), s')"
  shows "\<exists>existing.
           existing_phrases_loop (filter (\<lambda>row. wtype row = ''S'') (word_table s)) [] = Inr existing
         \<and> set existing =
             {(word row, cls, typ, op_or_placeholder d) | row cls typ d.
                row \<in> set (word_table s) \<and> wtype row = ''S'' \<and> info row = Some d
                \<and> map_of d ''class'' = Some cls \<and> map_of d ''type'' = Some typ}
         \<and> total_count = card ((\<lambda>(p0, p1, p2, p3). (normalized ta p0, p1, p2, p3)) ` set phrases)
         \<and> added = card {p. p \<in> (\<lambda>(p0, p1, p2, p3). (normalized ta p0, p1, p2, p3)) ` set phrases
                            - set existing \<and> search_normalized ta (fst p) \<noteq> []}
         \<and> deleted = (if should_replace
                       then card (set existing
                                  - (\<lambda>(p0, p1, p2, p3). (normalized ta p0, p1, p2, p3)) ` set phrases)
                       else 0)"
proof (cases "existing_phrases_loop (filter (\<lambda>row. wtype row = ''S'') (word_table s)) []")
  case (Inl e)
  with assms show ?thesis by (simp add: update_special_phrases_def Let_def)
next
  case (Inr existing)
  let ?f = "\<lambda>(p0, p1, p2, p3). (normalized ta p0, p1, p2, p3)"
  let ?norm = "py_set (map ?f phrases)"
  let ?s0 = "s\<lparr>executed := executed s @ [Select_special_phrases]\<rparr>"
  let ?a = "add_special_phrases ta ?norm existing ?s0"
  have dn: "distinct ?norm" by simp
  have de: "distinct existing" using distinct_existing_phrases_loop [OF Inr] by simp
  have sn: "set ?norm = ?f ` set phrases" by simp
  from assms Inr have total_count: "total_count = length ?norm" and added: "added = fst ?a"
    and deleted: "deleted = (if should_replace
        then fst (remove_special_phrases ?norm existing (snd ?a)) else 0)"
    by (auto simp: update_special_phrases_def Let_def split: prod.splits if_splits)
  have t: "total_count = card (?f ` set phrases)"
    using total_count distinct_card [OF dn] sn by simp
  have "added = length (filter (\<lambda>p. search_normalized ta (fst p) \<noteq> []) (set_difference ?norm existing))"
    using added by (simp add: add_special_phrases_count)
  also have "\<dots> = card (set (filter (\<lambda>p. search_normalized ta (fst p) \<noteq> []) (set_difference ?norm existing)))"
  proof -
    have "distinct (filter (\<lambda>p. search_normalized ta (fst p) \<noteq> []) (set_difference ?norm existing))"
      using dn by (simp add: distinct_set_difference)
    then show ?thesis by (rule distinct_card [symmetric])
  qed
  also have "set (filter (\<lambda>p. search_normalized ta (fst p) \<noteq> []) (set_difference ?norm existing))
      = {p. p \<in> ?f ` set phrases - set existing \<and> search_normalized ta (fst p) \<noteq> []}"
    using sn by auto
  finally have a: "added = card {p. p \<in> ?f ` set phrases - set existing \<and> search_normalized ta (fst p) \<noteq> []}" .
  have "fst (remove_special_phrases ?norm existing (snd ?a)) = length (set_difference existing ?norm)"
    by (simp add: remove_special_phrases_def Let_def)
  also have "\<dots> = card (set existing - ?f ` set phrases)"
    using de distinct_card [OF distinct_set_difference [OF de, of ?norm]] sn by simp
  finally have d: "deleted = (if should_replace then card (set existing - ?f ` set phrases) else 0)"
    using deleted by simp
  have se: "set existing =
             {(word row, cls, typ, op_or_placeholder d) | row cls typ d.
                row \<in> set (word_table s) \<and> wtype row = ''S'' \<and> info row = Some d
                \<and> map_of d ''class'' = Some cls \<and> map_of d ''type'' = Some typ}"
    using set_existing_phrases_loop [OF Inr] by auto
  show ?thesis using Inr t a d se by blast
qed

lemmas phrase_eval = update_special_phrases_def add_special_phrases_def remove_special_phrases_def
  special_phrase_row_def op_or_placeholder_def delete_matches_def json_text_def
  py_set_def set_add_def set_difference_def normalized_def search_normalized_def Let_def


text \<open>
  C4 at a failing input. The stored phrase has a null operator, which is read as \<open>-\<close>. The
  same phrase given with the operator \<open>-\<close> is found among the stored ones and not added.
  Given with the operator \<open>foo\<close>, which is outside in and near, its row would be stored with a
  null operator too, the very row that is stored already; but the input tuple is compared
  with its operator as given, is not found, and the row is added a second time. With the
  replace flag the stored tuple is then taken for one that is no longer wanted, and the
  \<open>DELETE\<close> removes the old row together with the row just added: the phrase is gone.
\<close>

theorem update_special_phrases_unnormalized_operator:
  "op_or_placeholder [(''class'', ''A''), (''type'', ''B'')] = ''-''
   \<and> special_phrase_row ''a'' (''a'', ''A'', ''B'', ''foo'')
       = special_phrase_row ''a'' (''a'', ''A'', ''B'', ''-'')
   \<and> fst (update_special_phrases plain_analysis [(''a'', ''A'', ''B'', ''-'')] False stored_phrase)
       = Inr (1, 0, 0)
   \<and> fst (update_special_phrases plain_analysis [(''a'', ''A'', ''B'', ''foo'')] False stored_phrase)
       = Inr (1, 1, 0)
   \<and> word_table (snd (update_special_phrases plain_analysis [(''a'', ''A'', ''B'', ''foo'')] False
        stored_phrase))
       = [special_phrase_row ''a'' (''a'', ''A'', ''B'', ''-''),
          special_phrase_row ''a'' (''a'', ''A'', ''B'', ''-'')]
   \<and> fst (update_special_phrases plain_analysis [(''a'', ''A'', ''B'', ''foo'')] True stored_phrase)
       = Inr (1, 1, 1)
   \<and> word_table (snd (update_special_phrases plain_analysis [(''a'', ''A'', ''B'', ''foo'')] True
        stored_phrase))
       = []"
  by (simp add: stored_phrase_def fixture_defs phrase_eval string_eval)

lemma update_special_phrases_counts_example:
  "fst (update_special_phrases plain_analysis
          [(''a'', ''A'', ''B'', ''-''), (''b'', ''C'', ''D'', ''in'')] True stored_phrase)
     = Inr (2, 1, 0)
   \<and> card ((\<lambda>(p0, p1, p2, p3). (normalized plain_analysis p0, p1, p2, p3))
            ` set [(''a'', ''A'', ''B'', ''-''), (''b'', ''C'', ''D'', ''in'')]) = 2"
proof -
  let ?r = "update_special_phrases plain_analysis
          [(''a'', ''A'', ''B'', ''-''), (''b'', ''C'', ''D'', ''in'')] True stored_phrase"
  have e: "fst ?r = Inr (2, 1, 0)"
    by (simp add: stored_phrase_def fixture_defs phrase_eval string_eval)
  then have h: "?r = (Inr (2, 1, 0), snd ?r)" by (simp add: prod_eq_iff)
  from update_special_phrases_counts [OF h] e show ?thesis by auto
qed

theorem update_special_phrases_additive_witness:
  "fst (update_special_phrases plain_analysis [(''b'', ''C'', ''D'', ''in'')] False stored_phrase)
     = Inr (1, 1, 0)
   \<and> (\<exists>new. word_table (snd (update_special_phrases plain_analysis [(''b'', ''C'', ''D'', ''in'')]
                  False stored_phrase))
               = word_table stored_phrase @ new
            \<and> list_all (\<lambda>row. wtype row = ''S'') new)"
proof -
  have "fst (update_special_phrases plain_analysis [(''b'', ''C'', ''D'', ''in'')] False stored_phrase)
     = Inr (1, 1, 0)"
    by (simp add: stored_phrase_def fixture_defs phrase_eval string_eval)
  with update_special_phrases_additive [of plain_analysis "[(''b'', ''C'', ''D'', ''in'')]" stored_phrase]
  show ?thesis by blast
qed

section \<open>Address items\<close>

lemma retrieve_full_tokens_table:
  "word_table (snd (retrieve_full_tokens ta nm s)) = word_table s"
  by (simp add: retrieve_full_tokens_def Let_def split: option.splits)

lemma retrieve_full_tokens_executed:
  "executed (snd (retrieve_full_tokens ta nm s)) =
     (case fulls (cache s) (search_normalized ta nm) of
        Some full \<Rightarrow> executed s
      | None \<Rightarrow> executed s @ [Select_full_tokens (search_normalized ta nm)])"
  by (simp add: retrieve_full_tokens_def Let_def split: option.splits)

lemma retrieve_full_tokens_result:
  "fst (retrieve_full_tokens ta nm s) =
     (case fulls (cache s) (search_normalized ta nm) of
        Some full \<Rightarrow> full
      | None \<Rightarrow> map word_id (filter (\<lambda>row. word_token row = search_normalized ta nm \<and> wtype row = ''W'')
                  (word_table s)))"
  by (simp add: retrieve_full_tokens_def Let_def split: option.splits)

lemma address_loop_street:
  "kind item = ''street'' \<Longrightarrow>
   address_loop ta sql (item # rest) hnrs addr_terms streets data s
     = address_loop ta sql rest hnrs addr_terms
         (streets @ fst (retrieve_full_tokens ta (name item) s)) data
         (snd (retrieve_full_tokens ta (name item) s))"
  by (simp add: split_beta)

lemma split_housenumbers_returns: "hnrs \<noteq> [] \<Longrightarrow> \<exists>xs. split_housenumbers hnrs = Inr xs"
  by (cases hnrs) (auto simp: split_housenumbers_def split_condition_def Let_def)

lemma process_place_address_returns:
  "\<exists>d s'. process_place_address ta sql address data s = (Inr d, s')"
proof -
  obtain hnrs addr_terms streets data1 s1 where
    l: "address_loop ta sql address [] [] [] data s = (hnrs, addr_terms, streets, data1, s1)"
    by (metis prod_cases5)
  show ?thesis
  proof (cases "hnrs = []")
    case True
    then show ?thesis by (simp add: process_place_address_def l Let_def)
  next
    case False
    then obtain xs where "split_housenumbers hnrs = Inr xs"
      using split_housenumbers_returns by blast
    then show ?thesis using False
      by (simp add: process_place_address_def l Let_def split: prod.splits)
  qed
qed

lemma add_place_names: "add_place tokens data ''names'' = data ''names''"
  by (simp add: add_place_def)

lemma address_loop_names:
  "address_loop ta sql address hnrs addr_terms streets data s = (hnrs', addr_terms', streets', data', s')
   \<Longrightarrow> data' ''names'' = data ''names''"
proof (induction address arbitrary: hnrs addr_terms streets data s)
  case Nil
  then show ?case by simp
next
  case (Cons item rest)
  show ?case
  proof (cases "kind item = ''postcode''")
    case True
    with Cons.prems Cons.IH show ?thesis by simp
  next
    case np: False
    show ?thesis
    proof (cases "kind item \<in> {''housenumber'', ''streetnumber'', ''conscriptionnumber''}")
      case True
      with Cons.prems Cons.IH np show ?thesis by simp
    next
      case nh: False
      show ?thesis
      proof (cases "kind item = ''street''")
        case True
        from Cons.prems show ?thesis
          unfolding address_loop_street [OF True] by (rule Cons.IH)
      next
        case ns: False
        show ?thesis
        proof (cases "kind item = ''place''")
          case True
          with Cons.prems np nh ns show ?thesis
            by (auto simp: split_beta add_place_names split: if_splits dest!: Cons.IH)
        next
          case False
          with Cons.prems np nh ns show ?thesis
            by (auto simp: split_beta split: if_splits dest!: Cons.IH)
        qed
      qed
    qed
  qed
qed

lemma process_place_address_names:
  assumes "process_place_address ta sql address data s = (Inr d, s')"
  shows "d ''names'' = data ''names''"
proof -
  obtain hnrs addr_terms streets data1 s1 where
    l: "address_loop ta sql address [] [] [] data s = (hnrs, addr_terms, streets, data1, s1)"
    by (metis prod_cases5)
  from address_loop_names [OF l] have "data1 ''names'' = data ''names''" .
  with assms show ?thesis
    by (auto simp: process_place_address_def l Let_def add_housenumbers_def add_address_terms_def
        add_street_def split: if_splits sum.splits prod.splits)
qed

text \<open>
  C8. An address item of kind \<open>street\<close> takes one round of the address loop, which only
  appends the result of \<open>_retrieve_full_tokens\<close> to the street tokens. The lookup leaves the word
  table as it is; it sends the one \<open>SELECT\<close> when the search-folded name is not in the cache and
  nothing when it is, and the result is the cached list or the ids of the matching full-word
  rows, kept in the cache afterwards. When the lookup finds nothing, a place with this street
  as its address gets no street field, and processing an address never ends in an error.
\<close>

theorem street_item_read_only:
  assumes "kind item = ''street''"
  shows "address_loop ta sql (item # rest) hnrs addr_terms streets data s
           = address_loop ta sql rest hnrs addr_terms
               (streets @ fst (retrieve_full_tokens ta (name item) s)) data
               (snd (retrieve_full_tokens ta (name item) s))
       \<and> word_table (snd (retrieve_full_tokens ta (name item) s)) = word_table s
       \<and> executed (snd (retrieve_full_tokens ta (name item) s)) =
           (case fulls (cache s) (search_normalized ta (name item)) of
              Some full \<Rightarrow> executed s
            | None \<Rightarrow> executed s @ [Select_full_tokens (search_normalized ta (name item))])
       \<and> fst (retrieve_full_tokens ta (name item) s) =
           (case fulls (cache s) (search_normalized ta (name item)) of
              Some full \<Rightarrow> full
            | None \<Rightarrow> map word_id
                (filter (\<lambda>row. word_token row = search_normalized ta (name item) \<and> wtype row = ''W'')
                   (word_table s)))
       \<and> fulls (cache (snd (retrieve_full_tokens ta (name item) s)))
             (search_normalized ta (name item))
           = Some (fst (retrieve_full_tokens ta (name item) s))
       \<and> (fst (retrieve_full_tokens ta (name item) s) = [] \<longrightarrow>
            process_place_address ta sql [item] data s
              = (Inr data, snd (retrieve_full_tokens ta (name item) s)))
       \<and> (\<exists>d s'. process_place_address ta sql (item # rest) data s = (Inr d, s'))"
proof (intro conjI impI)
  show "fulls (cache (snd (retrieve_full_tokens ta (name item) s)))
             (search_normalized ta (name item))
           = Some (fst (retrieve_full_tokens ta (name item) s))"
    by (simp add: retrieve_full_tokens_def Let_def split: option.splits)
  show "address_loop ta sql (item # rest) hnrs addr_terms streets data s
           = address_loop ta sql rest hnrs addr_terms
               (streets @ fst (retrieve_full_tokens ta (name item) s)) data
               (snd (retrieve_full_tokens ta (name item) s))"
    by (rule address_loop_street [OF assms])
  show "word_table (snd (retrieve_full_tokens ta (name item) s)) = word_table s"
    by (rule retrieve_full_tokens_table)
  show "executed (snd (retrieve_full_tokens ta (name item) s)) =
           (case fulls (cache s) (search_normalized ta (name item)) of
              Some full \<Rightarrow> executed s
            | None \<Rightarrow> executed s @ [Select_full_tokens (search_normalized ta (name item))])"
    by (rule retrieve_full_tokens_executed)
  show "fst (retrieve_full_tokens ta (name item) s) =
           (case fulls (cache s) (search_normalized ta (name item)) of
              Some full \<Rightarrow> full
            | None \<Rightarrow> map word_id
                (filter (\<lambda>row. word_token row = search_normalized ta (name item) \<and> wtype row = ''W'')
                   (word_table s)))"
    by (rule retrieve_full_tokens_result)
  show "\<exists>d s'. process_place_address ta sql (item # rest) data s = (Inr d, s')"
    by (rule process_place_address_returns)
next
  assume "fst (retrieve_full_tokens ta (name item) s) = []"
  then show "process_place_address ta sql [item] data s
              = (Inr data, snd (retrieve_full_tokens ta (name item) s))"
    unfolding process_place_address_def address_loop_street [OF assms] by (simp add: Let_def)
qed

theorem street_item_read_only_witness:
  "kind (address_item ''street'' ''Main Street'') = ''street''
   \<and> process_place_address plain_analysis plain_sql [address_item ''street'' ''Main Street'']
        Map.empty new_analyzer
      = (Inr Map.empty,
         snd (retrieve_full_tokens plain_analysis (name (address_item ''street'' ''Main Street''))
                new_analyzer))
   \<and> word_table (snd (retrieve_full_tokens plain_analysis
        (name (address_item ''street'' ''Main Street'')) new_analyzer)) = []"
proof -
  have k: "kind (address_item ''street'' ''Main Street'') = ''street''"
    by (simp add: address_item_def)
  have e: "fst (retrieve_full_tokens plain_analysis (name (address_item ''street'' ''Main Street''))
             new_analyzer) = []"
    by (simp add: retrieve_full_tokens_result fixture_defs)
  have t: "word_table new_analyzer = []"
    by (simp add: new_analyzer_def)
  from street_item_read_only [OF k, of plain_analysis plain_sql "[]" "[]" "[]" "[]" Map.empty new_analyzer]
    k e t
  show ?thesis by simp
qed

section \<open>Names that are all skipped\<close>

lemma all_skipped:
  "\<forall>nm \<in> set ns. names (cache s) (token_id_of ta nm) = None \<and> skipped ta nm \<Longrightarrow>
   compute_name_tokens_loop ta sql ns F P s = (Inr (F, P), s)"
proof (induction ns)
  case Nil
  then show ?case by simp
next
  case (Cons nm rest)
  then have n: "names (cache s) (token_id_of ta nm) = None" and sk: "skipped ta nm" by auto
  show ?case unfolding loop_skip [OF n sk] using Cons by simp
qed

lemma mk_array_empty: "mk_array str [] = ''{}''"
  by (simp add: mk_array_def)

text \<open>
  C10. A place without names gets no \<open>names\<close> field. A place whose name list is not empty,
  and whose names all miss the cache and have an empty variant set, so that each is skipped,
  is processed without error and gets the \<open>names\<close> field with the empty array \<open>{}\<close>.
\<close>

theorem process_place_all_names_skipped:
  "(place_names place = [] \<longrightarrow>
      (\<exists>data s'. process_place ta sql place s = (Inr data, s') \<and> data ''names'' = None))
   \<and> (place_names place \<noteq> []
        \<and> (\<forall>nm \<in> set (place_names place).
              names (cache s) (token_id_of ta nm) = None \<and> skipped ta nm) \<longrightarrow>
      (\<exists>data s'. process_place ta sql place s = (Inr data, s')
                \<and> data ''names'' = Some (Str ''{}'')))"
proof (intro conjI impI)
  assume e: "place_names place = []"
  show "\<exists>data s'. process_place ta sql place s = (Inr data, s') \<and> data ''names'' = None"
  proof (cases "place_address place = []")
    case True
    with e show ?thesis by (simp add: process_place_def)
  next
    case False
    obtain d s' where a: "process_place_address ta sql (place_address place) Map.empty s = (Inr d, s')"
      using process_place_address_returns by blast
    from process_place_address_names [OF a] have "d ''names'' = None" by simp
    with e False a show ?thesis by (simp add: process_place_def)
  qed
next
  assume h: "place_names place \<noteq> []
        \<and> (\<forall>nm \<in> set (place_names place).
              names (cache s) (token_id_of ta nm) = None \<and> skipped ta nm)"
  then have c: "compute_name_tokens ta sql (place_names place) s = (Inr ([], []), s)"
    by (simp add: compute_name_tokens_def all_skipped)
  let ?data = "add_names [] [] Map.empty"
  let ?s2 = "if is_country place
             then add_country_full_names ta (country_code place) (place_names place) s else s"
  have n: "?data ''names'' = Some (Str ''{}'')"
    by (simp add: add_names_def mk_array_empty)
  show "\<exists>data s'. process_place ta sql place s = (Inr data, s') \<and> data ''names'' = Some (Str ''{}'')"
  proof (cases "place_address place = []")
    case True
    with h c n show ?thesis by (simp add: process_place_def)
  next
    case False
    obtain d s' where a: "process_place_address ta sql (place_address place) ?data ?s2 = (Inr d, s')"
      using process_place_address_returns by blast
    from process_place_address_names [OF a] n have "d ''names'' = Some (Str ''{}'')" by simp
    with h c False a show ?thesis by (simp add: process_place_def)
  qed
qed


theorem process_place_all_names_skipped_witness:
  "place_names \<lparr>place_names = [tagged_name ''a'' ''none''],
      place_address = [address_item ''street'' ''Main Street''],
      is_country = False, country_code = ''de''\<rparr> \<noteq> []
   \<and> (\<exists>data s'. process_place plain_analysis plain_sql
          \<lparr>place_names = [tagged_name ''a'' ''none''],
           place_address = [address_item ''street'' ''Main Street''],
           is_country = False, country_code = ''de''\<rparr> new_analyzer = (Inr data, s')
        \<and> data ''names'' = Some (Str ''{}''))"
proof -
  let ?place = "\<lparr>place_names = [tagged_name ''a'' ''none''],
      place_address = [address_item ''street'' ''Main Street''],
      is_country = False, country_code = ''de''\<rparr>"
  have h: "place_names ?place \<noteq> []
      \<and> (\<forall>nm \<in> set (place_names ?place).
            names (cache new_analyzer) (token_id_of plain_analysis nm) = None
            \<and> skipped plain_analysis nm)"
    by (simp add: token_id_of_def skipped_def get_attr_def fixture_defs)
  from process_place_all_names_skipped [where place = ?place and s = new_analyzer
      and ta = plain_analysis and sql = plain_sql] h
  show ?thesis by blast
qed

end
